theory Spec2Isabelle
  imports Complex_Main "HOL-Library.Word"
begin

section \<open>Strings and values of the JavaScript runtime\<close>

text \<open>
  A JavaScript string is a sequence of UTF-16 code units. \<open>str\<close> embeds a 7-bit
  literal. The regular expressions and the string methods of the source (\<open>length\<close>,
  indexing, \<open>slice\<close>, \<open>split\<close>, \<open>startsWith\<close>, \<open>replaceAll\<close>) all work on code units.
\<close>

type_synonym codeunit = "16 word"
type_synonym ustring = "codeunit list"
type_synonym byte = "8 word"

definition str :: "string \<Rightarrow> ustring" where
  "str s = map of_char s"

text \<open>The character class \<open>[\x00-\x7F]\<close>.\<close>

definition is_ascii :: "codeunit \<Rightarrow> bool" where
  "is_ascii c \<longleftrightarrow> c \<le> 0x7F"

text \<open>
  \<open>String.prototype.trim\<close> removes white space and line terminators from both ends:
  TAB, LF, VT, FF, CR, SP, NBSP, U+1680, U+2000 to U+200A, U+2028, U+2029, U+202F,
  U+205F, U+3000 and U+FEFF.
\<close>

definition is_js_space :: "codeunit \<Rightarrow> bool" where
  "is_js_space c \<longleftrightarrow>
     (0x09 \<le> c \<and> c \<le> 0x0D) \<or> c = 0x20 \<or> c = 0xA0 \<or> c = 0x1680 \<or>
     (0x2000 \<le> c \<and> c \<le> 0x200A) \<or> c = 0x2028 \<or> c = 0x2029 \<or> c = 0x202F \<or>
     c = 0x205F \<or> c = 0x3000 \<or> c = 0xFEFF"

definition trim :: "ustring \<Rightarrow> ustring" where
  "trim s = rev (dropWhile is_js_space (rev (dropWhile is_js_space s)))"

definition startsWith :: "ustring \<Rightarrow> ustring \<Rightarrow> bool" where
  "startsWith s p \<longleftrightarrow> take (length p) s = p"

text \<open>
  \<open>s.split('\n')\<close>: never empty, \<open>''.split('\n')\<close> is \<open>['']\<close>; a code unit other than the
  line feed goes to the front of the first piece of the rest.
\<close>

fun split_nl :: "ustring \<Rightarrow> ustring list" where
  "split_nl [] = [[]]"
| "split_nl (c # cs) =
     (if c = 0x0A then [] # split_nl cs
      else (case split_nl cs of [] \<Rightarrow> [[c]] | l # ls \<Rightarrow> (c # l) # ls))"

text \<open>
  \<open>s.replaceAll(from, to)\<close> for a string pattern: the occurrences of \<open>from\<close> are found
  from left to right and do not overlap; an empty pattern matches between all code
  units. (The replacement texts of this program contain no \<open>$\<close> pattern.)
\<close>

function replaceAll :: "ustring \<Rightarrow> ustring \<Rightarrow> ustring \<Rightarrow> ustring" where
  "replaceAll from to s =
     (if from = [] then to @ concat (map (\<lambda>c. c # to) s)
      else if s = [] then []
      else if take (length from) s = from
        then to @ replaceAll from to (drop (length from) s)
      else hd s # replaceAll from to (tl s))"
  by pat_completeness auto
termination
  by (relation "measure (\<lambda>(from, to, s). length s)") auto

declare replaceAll.simps [simp del]

text \<open>
  A value as \<open>JSON.parse\<close> or \<open>req.json()\<close> returns it, and \<open>undefined\<close> for what a
  property access can yield. An object lists its members in source order; of two
  members with one key the later one is the property's value.
\<close>

datatype js_value =
    JUndefined
  | JNull
  | JBool bool
  | JNum rat
  | JStr ustring
  | JArr "js_value list"
  | JObj "(ustring \<times> js_value) list"

datatype js_error = TypeError | SyntaxError

fun truthy :: "js_value \<Rightarrow> bool" where
  "truthy JUndefined = False"
| "truthy JNull = False"
| "truthy (JBool b) = b"
| "truthy (JNum n) = (n \<noteq> 0)"
| "truthy (JStr s) = (s \<noteq> [])"
| "truthy (JArr xs) = True"
| "truthy (JObj kvs) = True"

definition nullish :: "js_value \<Rightarrow> bool" where
  "nullish v \<longleftrightarrow> v = JUndefined \<or> v = JNull"

text \<open>\<open>typeof v === 'object'\<close> holds of \<open>null\<close>, arrays and objects.\<close>

fun typeof_object :: "js_value \<Rightarrow> bool" where
  "typeof_object JNull = True"
| "typeof_object (JArr xs) = True"
| "typeof_object (JObj kvs) = True"
| "typeof_object v = False"

text \<open>
  \<open>v.name\<close> on a value that is neither \<open>null\<close> nor \<open>undefined\<close>, for the property names
  this program reads (\<open>messages\<close>, \<open>role\<close>, \<open>content\<close>, \<open>choices\<close>, \<open>delta\<close>): none of them
  is a property of a primitive, of an array or of \<open>Object.prototype\<close>.
\<close>

fun get_prop :: "ustring \<Rightarrow> js_value \<Rightarrow> js_value" where
  "get_prop name (JObj kvs) =
     (case map_of (rev kvs) name of Some v \<Rightarrow> v | None \<Rightarrow> JUndefined)"
| "get_prop name v = JUndefined"

text \<open>\<open>v[0]\<close> on a value that is neither \<open>null\<close> nor \<open>undefined\<close>.\<close>

fun get_index0 :: "js_value \<Rightarrow> js_value" where
  "get_index0 (JArr xs) = (case xs of [] \<Rightarrow> JUndefined | x # _ \<Rightarrow> x)"
| "get_index0 (JStr s) = (case s of [] \<Rightarrow> JUndefined | c # _ \<Rightarrow> JStr [c])"
| "get_index0 (JObj kvs) =
     (case map_of (rev kvs) (str ''0'') of Some v \<Rightarrow> v | None \<Rightarrow> JUndefined)"
| "get_index0 v = JUndefined"


section \<open>Content sanitizer\<close>

text \<open>
  \<open>sanitizeContent\<close> of \<open>route.ts\<close>. The signature declares a string, but nothing
  checks that and the transformer passes what it finds in the parsed delta, so the
  argument is any value. A falsy one gives the empty string. On a string,
  \<open>String.prototype.normalize\<close> belongs to the runtime; it is the parameter \<open>nfkd\<close>, where
  \<open>None\<close> stands for a call that throws: the source catches that and goes on with the
  string as it was. A truthy value that is not a string has neither \<open>normalize\<close> (that
  \<open>TypeError\<close> is caught) nor \<open>replaceAll\<close>: the call in the loop over the replacements
  throws a \<open>TypeError\<close> that nothing in the function catches.
\<close>

definition replacements :: "(ustring \<times> ustring) list" where
  "replacements =
     [([0x201C], [0x22]),
      ([0x201D], [0x22]),
      ([0x2018], [0x27]),
      ([0x2019], [0x27]),
      ([0x2014], [0x2D]),
      ([0x2013], [0x2D]),
      ([0x2026], [0x2E, 0x2E, 0x2E])]"

definition sanitizeContent ::
  "(ustring \<Rightarrow> ustring option) \<Rightarrow> js_value \<Rightarrow> js_error + ustring" where
  "sanitizeContent nfkd content =
     (if \<not> truthy content then Inr []
      else case content of
        JStr c \<Rightarrow>
          (let c1 = (case nfkd c of Some n \<Rightarrow> n | None \<Rightarrow> c);
               c2 = fold (\<lambda>(from, to) acc. replaceAll from to acc) replacements c1
           in Inr (filter is_ascii c2))
      | _ \<Rightarrow> Inl TypeError)"

text \<open>
  What Unicode normalisation guarantees of 7-bit text: no such character has a
  decomposition or is a combining mark, so the text comes back as it is.
\<close>

definition ascii_stable :: "(ustring \<Rightarrow> ustring option) \<Rightarrow> bool" where
  "ascii_stable nfkd \<longleftrightarrow> (\<forall>s. list_all is_ascii s \<longrightarrow> nfkd s \<in> {None, Some s})"

text \<open>
  A fragment of the compatibility decomposition, for worked examples: U+00E9 is
  \<open>e\<close> and U+0301, NBSP is a space, U+2026 is three full stops, U+FB01 is \<open>fi\<close>.
\<close>

definition decompose_sample :: "codeunit \<Rightarrow> ustring" where
  "decompose_sample c =
     (if c = 0x00E9 then [0x65, 0x0301]
      else if c = 0x00A0 then [0x20]
      else if c = 0x2026 then [0x2E, 0x2E, 0x2E]
      else if c = 0xFB01 then [0x66, 0x69]
      else [c])"

definition nfkd_sample :: "ustring \<Rightarrow> ustring option" where
  "nfkd_sample s = Some (concat (map decompose_sample s))"


section \<open>Downstream stream consumer\<close>

text \<open>
  The read loop of \<open>onResponse\<close> in \<open>page.tsx\<close>. Its input is the list of the chunks
  as \<open>decoder.decode(value)\<close> returns them, up to the end of the stream or a failing
  read (both leave \<open>text\<close> as it is).
\<close>

text \<open>The character class \<open>[a-zA-Z0-9]\<close>.\<close>

definition is_alnum :: "codeunit \<Rightarrow> bool" where
  "is_alnum c \<longleftrightarrow>
     (0x61 \<le> c \<and> c \<le> 0x7A) \<or> (0x41 \<le> c \<and> c \<le> 0x5A) \<or> (0x30 \<le> c \<and> c \<le> 0x39)"

text \<open>\<open>s[i]\<close>: \<open>undefined\<close> (\<open>None\<close>) outside the string.\<close>

definition char_at :: "ustring \<Rightarrow> int \<Rightarrow> codeunit option" where
  "char_at s i = (if 0 \<le> i \<and> i < int (length s) then Some (s ! nat i) else None)"

text \<open>
  \<open>/[a-zA-Z0-9]/.test(x)\<close>: \<open>test\<close> converts its argument to a string, \<open>undefined\<close> to
  the text \<open>undefined\<close>, and the expression, which is not anchored, matches when some
  code unit of that string is in the class.
\<close>

definition test_alnum :: "codeunit option \<Rightarrow> bool" where
  "test_alnum x =
     list_ex is_alnum (case x of None \<Rightarrow> str ''undefined'' | Some c \<Rightarrow> [c])"

definition needsSpace :: "ustring \<Rightarrow> ustring \<Rightarrow> bool" where
  "needsSpace text content \<longleftrightarrow>
     (let lastChar = char_at text (int (length text) - 1);
          firstChar = char_at content 0
      in length text > 0 \<and> test_alnum lastChar \<and> test_alnum firstChar)"

text \<open>\<open>text += (needsSpace ? ' ' : '') + content\<close>\<close>

definition token_join :: "ustring \<Rightarrow> ustring \<Rightarrow> ustring" where
  "token_join text content =
     text @ ((if needsSpace text content then str '' '' else []) @ content)"

definition consume_line :: "ustring \<Rightarrow> ustring \<Rightarrow> ustring" where
  "consume_line text line =
     (if startsWith line (str ''data: '') then
        (let content = drop 6 line in
         if content \<noteq> str ''[DONE]'' then token_join text content else text)
      else text)"

definition consume_chunk :: "ustring \<Rightarrow> ustring \<Rightarrow> ustring" where
  "consume_chunk text chunk =
     fold (\<lambda>line text. consume_line text line) (split_nl chunk) text"

definition readStream :: "ustring list \<Rightarrow> ustring" where
  "readStream chunks = fold (\<lambda>chunk text. consume_chunk text chunk) chunks []"


section \<open>Resilient fetcher\<close>

text \<open>
  \<open>reader.read()\<close> resolves with a chunk of bytes or rejects; the end of the list is
  \<open>done\<close>. \<open>body_reads\<close> is what the reader of \<open>response.body\<close> will deliver.
\<close>

datatype read_result = Chunk "byte list" | ReadError

datatype fetch_error = NetworkError nat | HttpError nat

record response =
  ok :: bool
  status :: nat
  body_reads :: "read_result list"

text \<open>
  \<open>fetchWithRetries\<close> of \<open>route.ts\<close>. The URL and the options are the same in every
  attempt, so the network is a function from the number of the call to what \<open>fetch\<close>
  does then: it rejects, or resolves with a response. The state counts the calls and
  adds up the delays handed to \<open>setTimeout\<close>, each of which lasts at least that long.
  \<open>retries\<close> is a JavaScript number, here an integer; below zero it never reaches the
  test \<open>retries === 0\<close>, so the function is partial.
\<close>

record net =
  calls :: nat
  waited :: int

definition attempt ::
  "(nat \<Rightarrow> fetch_error + response) \<Rightarrow> net \<Rightarrow> (fetch_error + response) \<times> net" where
  "attempt fetch s =
     (let s1 = s\<lparr>calls := calls s + 1\<rparr> in
      case fetch (calls s) of
        Inl e \<Rightarrow> (Inl e, s1)
      | Inr resp \<Rightarrow>
          if \<not> ok resp then (Inl (HttpError (status resp)), s1) else (Inr resp, s1))"

partial_function (option) fetchWithRetries ::
  "(nat \<Rightarrow> fetch_error + response) \<Rightarrow> int \<Rightarrow> int \<Rightarrow> net \<Rightarrow>
   ((fetch_error + response) \<times> net) option" where
  "fetchWithRetries fetch retries delay s =
     (case attempt fetch s of
        (Inr resp, s1) \<Rightarrow> Some (Inr resp, s1)
      | (Inl error, s1) \<Rightarrow>
          if retries = 0 then Some (Inl error, s1)
          else fetchWithRetries fetch (retries - 1) (delay * 2)
                 (s1\<lparr>waited := waited s1 + delay\<rparr>))"

text \<open>An attempt fails when \<open>fetch\<close> rejects or the response is not \<open>ok\<close>.\<close>

definition fails :: "fetch_error + response \<Rightarrow> bool" where
  "fails r \<longleftrightarrow> (case r of Inl e \<Rightarrow> True | Inr resp \<Rightarrow> \<not> ok resp)"

definition error_of :: "fetch_error + response \<Rightarrow> fetch_error" where
  "error_of r = (case r of Inl e \<Rightarrow> e | Inr resp \<Rightarrow> HttpError (status resp))"

definition fetch_sample :: "nat \<Rightarrow> fetch_error + response" where
  "fetch_sample n =
     (if n = 0 then Inl (NetworkError 7)
      else if n = 1 then Inr \<lparr>ok = False, status = 503, body_reads = []\<rparr>
      else Inr \<lparr>ok = True, status = 200, body_reads = []\<rparr>)"

definition fetch_down :: "nat \<Rightarrow> fetch_error + response" where
  "fetch_down n =
     (if n < 3 then Inl (NetworkError n)
      else Inr \<lparr>ok = False, status = 500 + n, body_reads = []\<rparr>)"


section \<open>Upstream stream transformer\<close>

text \<open>
  \<open>start\<close> of the \<open>ReadableStream\<close> in \<open>route.ts\<close>. \<open>JSON.parse\<close> is the parameter
  \<open>parse\<close> (\<open>None\<close>: it throws). The text decoder is the parameter \<open>dec\<close>: from its state
  and a chunk it gives the new state and the decoded text, or \<open>None\<close> when the chunk is
  rejected (\<open>fatal: true\<close>). The events are the texts given to \<open>encoder.encode\<close>, in the
  order of \<open>controller.enqueue\<close>. The model begins with the reader of the response body
  in hand (without a body the source throws before the loop) and ends with the state
  of the output stream: closed after \<open>done\<close>, errored after an exception in the loop.
\<close>

datatype outcome = Closed | Errored

type_synonym 'd decoder = "'d \<Rightarrow> byte list \<Rightarrow> 'd \<times> ustring option"

definition sse_event :: "ustring \<Rightarrow> ustring" where
  "sse_event p = str ''data: '' @ p @ [0x0A, 0x0A]"

text \<open>
  \<open>data.choices?.[0]?.delta?.content\<close>: reading \<open>choices\<close> of \<open>null\<close> throws; every later
  step gives \<open>undefined\<close> on \<open>null\<close> or \<open>undefined\<close>.
\<close>

definition delta_content :: "js_value \<Rightarrow> js_error + js_value" where
  "delta_content data =
     (if nullish data then Inl TypeError
      else let choices = get_prop (str ''choices'') data in
        if nullish choices then Inr JUndefined
        else let first = get_index0 choices in
          if nullish first then Inr JUndefined
          else let delta = get_prop (str ''delta'') first in
            if nullish delta then Inr JUndefined
            else Inr (get_prop (str ''content'') delta))"

text \<open>
  The body of the inner \<open>try\<close> up to the sanitized content:
  \<open>sanitizeContent(data.choices?.[0]?.delta?.content || '')\<close>.
\<close>

definition delta_text ::
  "(ustring \<Rightarrow> ustring option) \<Rightarrow> (ustring \<Rightarrow> js_value option) \<Rightarrow> ustring \<Rightarrow>
   js_error + ustring" where
  "delta_text nfkd parse jsonData =
     (case parse jsonData of
        None \<Rightarrow> Inl SyntaxError
      | Some data \<Rightarrow>
          (case delta_content data of
             Inl e \<Rightarrow> Inl e
           | Inr v \<Rightarrow>
               sanitizeContent nfkd (if truthy v then v else JStr [])))"

definition process_line ::
  "(ustring \<Rightarrow> ustring option) \<Rightarrow> (ustring \<Rightarrow> js_value option) \<Rightarrow> ustring \<Rightarrow>
   ustring list" where
  "process_line nfkd parse line =
     (if trim line = [] then []
      else if \<not> startsWith line (str ''data: '') then []
      else
        let jsonData = drop 6 line in
        if jsonData = str ''[DONE]'' then [str ''data: [DONE]'' @ [0x0A, 0x0A]]
        else case delta_text nfkd parse jsonData of
          Inl e \<Rightarrow> []
        | Inr content \<Rightarrow>
            if content \<noteq> [] then [str ''data: '' @ content @ [0x0A, 0x0A]] else [])"

text \<open>
  Decoding a chunk: when the decoder rejects it, once more without its first byte;
  a second rejection leaves the loop.
\<close>

definition decode_chunk :: "'d decoder \<Rightarrow> 'd \<Rightarrow> byte list \<Rightarrow> ('d \<times> ustring) option" where
  "decode_chunk dec d val =
     (case dec d val of
        (d1, Some t) \<Rightarrow> Some (d1, t)
      | (d1, None) \<Rightarrow>
          (case dec d1 (drop 1 val) of
             (d2, Some t) \<Rightarrow> Some (d2, t)
           | (d2, None) \<Rightarrow> None))"

fun read_loop ::
  "(ustring \<Rightarrow> ustring option) \<Rightarrow> (ustring \<Rightarrow> js_value option) \<Rightarrow> 'd decoder \<Rightarrow>
   'd \<Rightarrow> ustring \<Rightarrow> read_result list \<Rightarrow> ustring list \<times> outcome" where
  "read_loop nfkd parse dec d buffer [] = ([], Closed)"
| "read_loop nfkd parse dec d buffer (ReadError # rest) = ([], Errored)"
| "read_loop nfkd parse dec d buffer (Chunk val # rest) =
     (case decode_chunk dec d val of
        None \<Rightarrow> ([], Errored)
      | Some (d', text) \<Rightarrow>
          (let lines = split_nl (buffer @ text);
               buffer' = last lines;
               out = concat (map (process_line nfkd parse) (butlast lines));
               (more, oc) = read_loop nfkd parse dec d' buffer' rest
           in (out @ more, oc)))"

definition transform_stream ::
  "(ustring \<Rightarrow> ustring option) \<Rightarrow> (ustring \<Rightarrow> js_value option) \<Rightarrow> 'd decoder \<Rightarrow>
   'd \<Rightarrow> read_result list \<Rightarrow> ustring list \<times> outcome" where
  "transform_stream nfkd parse dec d0 reads = read_loop nfkd parse dec d0 [] reads"

text \<open>
  What the upstream sent, as text: the chunks decoded one after the other until the
  end of the stream or the failure that ends the loop; and its complete lines, those
  that a line feed ends.
\<close>

fun upstream_text :: "'d decoder \<Rightarrow> 'd \<Rightarrow> read_result list \<Rightarrow> ustring \<times> outcome" where
  "upstream_text dec d [] = ([], Closed)"
| "upstream_text dec d (ReadError # rest) = ([], Errored)"
| "upstream_text dec d (Chunk val # rest) =
     (case decode_chunk dec d val of
        None \<Rightarrow> ([], Errored)
      | Some (d', t) \<Rightarrow>
          (let (more, oc) = upstream_text dec d' rest in (t @ more, oc)))"

definition complete_lines :: "ustring \<Rightarrow> ustring list" where
  "complete_lines text = butlast (split_nl text)"

text \<open>A line that is not the terminal line and whose sanitized delta is \<open>[DONE]\<close>.\<close>

definition delta_is_done ::
  "(ustring \<Rightarrow> ustring option) \<Rightarrow> (ustring \<Rightarrow> js_value option) \<Rightarrow> ustring \<Rightarrow> bool" where
  "delta_is_done nfkd parse line \<longleftrightarrow>
     startsWith line (str ''data: '') \<and> drop 6 line \<noteq> str ''[DONE]'' \<and>
     delta_text nfkd parse (drop 6 line) = Inr (str ''[DONE]'')"

text \<open>A decoder that gives 7-bit bytes back as they are, as UTF-8 does.\<close>

definition ascii_faithful :: "'d decoder \<Rightarrow> 'd \<Rightarrow> bool" where
  "ascii_faithful dec d \<longleftrightarrow>
     (\<forall>bs. list_all (\<lambda>b. b \<le> 0x7F) bs \<longrightarrow> dec d bs = (d, Some (map ucast bs)))"

definition bytes :: "string \<Rightarrow> byte list" where
  "bytes s = map of_char s"

text \<open>
  For worked examples: a decoder of 7-bit input that rejects every other chunk, and a
  parser of a fragment of JSON (no exponents or fractions, no \<open>\u\<close> escapes).
\<close>

definition ascii_decoder :: "unit decoder" where
  "ascii_decoder d bs =
     (d, if list_all (\<lambda>b. b \<le> 0x7F) bs then Some (map ucast bs) else None)"

definition is_json_ws :: "codeunit \<Rightarrow> bool" where
  "is_json_ws c \<longleftrightarrow> c = 0x20 \<or> c = 0x09 \<or> c = 0x0A \<or> c = 0x0D"

definition skip_ws :: "ustring \<Rightarrow> ustring" where
  "skip_ws s = dropWhile is_json_ws s"

definition unescape :: "codeunit \<Rightarrow> codeunit option" where
  "unescape e =
     (if e = 0x22 \<or> e = 0x5C \<or> e = 0x2F then Some e
      else if e = 0x6E then Some 0x0A
      else if e = 0x74 then Some 0x09
      else if e = 0x72 then Some 0x0D
      else if e = 0x62 then Some 0x08
      else if e = 0x66 then Some 0x0C
      else None)"

fun parse_chars :: "ustring \<Rightarrow> ustring \<Rightarrow> (ustring \<times> ustring) option" where
  "parse_chars acc [] = None"
| "parse_chars acc [c] = (if c = 0x22 then Some (acc, []) else None)"
| "parse_chars acc (c # e # cs) =
     (if c = 0x22 then Some (acc, e # cs)
      else if c = 0x5C then
        (case unescape e of None \<Rightarrow> None | Some u \<Rightarrow> parse_chars (acc @ [u]) cs)
      else if c < 0x20 then None
      else parse_chars (acc @ [c]) (e # cs))"

definition is_digit :: "codeunit \<Rightarrow> bool" where
  "is_digit c \<longleftrightarrow> 0x30 \<le> c \<and> c \<le> 0x39"

definition digits_value :: "ustring \<Rightarrow> nat" where
  "digits_value ds = fold (\<lambda>c n. 10 * n + (unat c - 0x30)) ds 0"

fun parse_value :: "nat \<Rightarrow> ustring \<Rightarrow> (js_value \<times> ustring) option"
  and parse_elements ::
    "nat \<Rightarrow> js_value list \<Rightarrow> ustring \<Rightarrow> (js_value list \<times> ustring) option"
  and parse_members ::
    "nat \<Rightarrow> (ustring \<times> js_value) list \<Rightarrow> ustring \<Rightarrow>
     ((ustring \<times> js_value) list \<times> ustring) option"
where
  "parse_value 0 s = None"
| "parse_value (Suc n) s =
     (case skip_ws s of
        [] \<Rightarrow> None
      | c # cs \<Rightarrow>
          if c = 0x22 then
            (case parse_chars [] cs of None \<Rightarrow> None | Some (t, r) \<Rightarrow> Some (JStr t, r))
          else if c = 0x5B then
            (case skip_ws cs of
               [] \<Rightarrow> None
             | x # r \<Rightarrow>
                 if x = 0x5D then Some (JArr [], r)
                 else (case parse_elements n [] cs of
                         None \<Rightarrow> None | Some (vs, r') \<Rightarrow> Some (JArr vs, r')))
          else if c = 0x7B then
            (case skip_ws cs of
               [] \<Rightarrow> None
             | x # r \<Rightarrow>
                 if x = 0x7D then Some (JObj [], r)
                 else (case parse_members n [] cs of
                         None \<Rightarrow> None | Some (kvs, r') \<Rightarrow> Some (JObj kvs, r')))
          else if startsWith (c # cs) (str ''null'') then Some (JNull, drop 3 cs)
          else if startsWith (c # cs) (str ''true'') then Some (JBool True, drop 3 cs)
          else if startsWith (c # cs) (str ''false'') then Some (JBool False, drop 4 cs)
          else if is_digit c then
            Some (JNum (of_nat (digits_value (takeWhile is_digit (c # cs)))),
                  dropWhile is_digit cs)
          else None)"
| "parse_elements 0 acc s = None"
| "parse_elements (Suc n) acc s =
     (case parse_value n s of
        None \<Rightarrow> None
      | Some (v, r) \<Rightarrow>
          (case skip_ws r of
             [] \<Rightarrow> None
           | c # r' \<Rightarrow>
               if c = 0x2C then parse_elements n (acc @ [v]) r'
               else if c = 0x5D then Some (acc @ [v], r')
               else None))"
| "parse_members 0 acc s = None"
| "parse_members (Suc n) acc s =
     (case skip_ws s of
        [] \<Rightarrow> None
      | q # cs \<Rightarrow>
          if q \<noteq> 0x22 then None
          else case parse_chars [] cs of
            None \<Rightarrow> None
          | Some (k, r) \<Rightarrow>
              (case skip_ws r of
                 [] \<Rightarrow> None
               | colon # r1 \<Rightarrow>
                   if colon \<noteq> 0x3A then None
                   else case parse_value n r1 of
                     None \<Rightarrow> None
                   | Some (v, r2) \<Rightarrow>
                       (case skip_ws r2 of
                          [] \<Rightarrow> None
                        | c # r3 \<Rightarrow>
                            if c = 0x2C then parse_members n (acc @ [(k, v)]) r3
                            else if c = 0x7D then Some (acc @ [(k, v)], r3)
                            else None)))"

definition json_parse_sample :: "ustring \<Rightarrow> js_value option" where
  "json_parse_sample s =
     (case parse_value (Suc (length s)) s of
        None \<Rightarrow> None
      | Some (v, r) \<Rightarrow> if skip_ws r = [] then Some v else None)"

text \<open>The parsed form of \<open>{"choices":[{"delta":{"content": t}}]}\<close>.\<close>

definition delta_json :: "ustring \<Rightarrow> js_value" where
  "delta_json t =
     JObj [(str ''choices'',
            JArr [JObj [(str ''delta'', JObj [(str ''content'', JStr t)])]])]"


text \<open>
  Upstream bodies for worked examples: the two deltas \<open>Hel\<close> and \<open>lo\<close> followed by the
  terminal line, and a body with two terminal lines.
\<close>

definition hello_upstream :: string where
  "hello_upstream =
     ''data: {\"choices\":[{\"delta\":{\"content\":\"Hel\"}}]}\<newline>\<newline>data: {\"choices\":[{\"delta\":{\"content\":\"lo\"}}]}\<newline>\<newline>data: [DONE]\<newline>\<newline>''"

definition two_done_upstream :: string where
  "two_done_upstream = ''data: [DONE]\<newline>\<newline>data: [DONE]\<newline>\<newline>''"


section \<open>Request handling before the stream\<close>

text \<open>
  The part of \<open>POST\<close> in \<open>route.ts\<close> from reading the request body to building the
  payload for the completion provider. Every \<open>throw\<close> of the source is an error value.
\<close>

datatype role = User | Assistant | System

record ChatMessage =
  role :: role
  content :: ustring

datatype post_error =
    TogetherKeyMissing
  | TavilyKeyMissing
  | BodyNotJSON
  | BodyNotObject
  | MessagesNotArray
  | MessageNotObject nat
  | RoleNotString nat
  | ContentNotString nat
  | RoleUnknown nat
  | NoMessages
  | SearchFailed
  | PayloadFailed js_error

text \<open>\<open>typeof v === 'string' && v\<close>: a non-empty string.\<close>

fun nonempty_string :: "js_value \<Rightarrow> ustring option" where
  "nonempty_string (JStr s) = (if s = [] then None else Some s)"
| "nonempty_string v = None"

definition role_of :: "ustring \<Rightarrow> role option" where
  "role_of r =
     (if r = str ''user'' then Some User
      else if r = str ''assistant'' then Some Assistant
      else if r = str ''system'' then Some System
      else None)"

text \<open>The callback of \<open>rawMessages.map\<close>, in the order of its checks.\<close>

definition validate_message :: "nat \<Rightarrow> js_value \<Rightarrow> post_error + ChatMessage" where
  "validate_message index msg =
     (if \<not> truthy msg \<or> \<not> typeof_object msg then Inl (MessageNotObject index)
      else case nonempty_string (get_prop (str ''role'') msg) of
        None \<Rightarrow> Inl (RoleNotString index)
      | Some r \<Rightarrow>
          (case nonempty_string (get_prop (str ''content'') msg) of
             None \<Rightarrow> Inl (ContentNotString index)
           | Some c \<Rightarrow>
               (case role_of r of
                  None \<Rightarrow> Inl (RoleUnknown index)
                | Some ro \<Rightarrow> Inr \<lparr>role = ro, content = trim c\<rparr>)))"

fun validate_messages :: "nat \<Rightarrow> js_value list \<Rightarrow> post_error + ChatMessage list" where
  "validate_messages index [] = Inr []"
| "validate_messages index (msg # rest) =
     (case validate_message index msg of
        Inl e \<Rightarrow> Inl e
      | Inr m \<Rightarrow>
          (case validate_messages (Suc index) rest of
             Inl e \<Rightarrow> Inl e
           | Inr ms \<Rightarrow> Inr (m # ms)))"

text \<open>
  The checks on the body, down to \<open>messages.length === 0\<close>. \<open>None\<close> is a body that
  \<open>req.json()\<close> rejects.
\<close>

definition validate_body :: "js_value option \<Rightarrow> post_error + ChatMessage list" where
  "validate_body body_opt =
     (case body_opt of
        None \<Rightarrow> Inl BodyNotJSON
      | Some body \<Rightarrow>
          if \<not> truthy body \<or> \<not> typeof_object body then Inl BodyNotObject
          else case get_prop (str ''messages'') body of
            JArr rawMessages \<Rightarrow>
              (case validate_messages 0 rawMessages of
                 Inl e \<Rightarrow> Inl e
               | Inr messages \<Rightarrow>
                   if length messages = 0 then Inl NoMessages else Inr messages)
          | _ \<Rightarrow> Inl MessagesNotArray)"

text \<open>\<open>messages[messages.length - 1]\<close>, on a list that is not empty.\<close>

definition lastUserMessage :: "ChatMessage list \<Rightarrow> ChatMessage" where
  "lastUserMessage messages = messages ! (length messages - 1)"

text \<open>
  The system message; \<open>searchText\<close> is \<open>JSON.stringify(searchResponse, null, 2)\<close>.
\<close>

definition systemMessage :: "ustring \<Rightarrow> ChatMessage" where
  "systemMessage searchText =
     \<lparr>role = System,
      content = str ''You are a highly intelligent and helpful AI assistant. Use the following search results to help answer the user's question, but also include your own knowledge. Search results:'' @ [0x0A] @ searchText\<rparr>"

text \<open>\<open>unshift\<close> when no message has the role \<open>system\<close>, else the assignment to index 0.\<close>

definition add_system_message :: "ChatMessage \<Rightarrow> ChatMessage list \<Rightarrow> ChatMessage list" where
  "add_system_message sm messages =
     (if \<not> list_ex (\<lambda>msg. role msg = System) messages then sm # messages
      else messages[0 := sm])"

text \<open>
  \<open>messages.map(msg => ({role: msg.role, content: sanitizeContent(msg.content)}))\<close>; an
  exception in the callback ends the map.
\<close>

fun payload_messages ::
  "(ustring \<Rightarrow> ustring option) \<Rightarrow> ChatMessage list \<Rightarrow> js_error + ChatMessage list" where
  "payload_messages nfkd [] = Inr []"
| "payload_messages nfkd (msg # rest) =
     (case sanitizeContent nfkd (JStr (content msg)) of
        Inl e \<Rightarrow> Inl e
      | Inr c \<Rightarrow>
          (case payload_messages nfkd rest of
             Inl e \<Rightarrow> Inl e
           | Inr ms \<Rightarrow> Inr (\<lparr>role = role msg, content = c\<rparr> # ms)))"

record prepared =
  search_query :: ustring
  conversation :: "ChatMessage list"
  payload :: "ChatMessage list"

text \<open>
  \<open>search\<close> is the web-search provider: the rendered result document for a query, or
  \<open>None\<close> when the call throws. The two keys are the environment variables; \<open>!apiKey\<close>
  holds of a missing and of an empty one.
\<close>

definition POST_prepare ::
  "(ustring \<Rightarrow> ustring option) \<Rightarrow> (ustring \<Rightarrow> ustring option) \<Rightarrow>
   ustring option \<Rightarrow> ustring option \<Rightarrow> js_value option \<Rightarrow> post_error + prepared" where
  "POST_prepare nfkd search apiKey tavilyKey body =
     (if apiKey = None \<or> apiKey = Some [] then Inl TogetherKeyMissing
      else if tavilyKey = None \<or> tavilyKey = Some [] then Inl TavilyKeyMissing
      else case validate_body body of
        Inl e \<Rightarrow> Inl e
      | Inr messages \<Rightarrow>
          (let q = content (lastUserMessage messages) in
           case search q of
             None \<Rightarrow> Inl SearchFailed
           | Some searchText \<Rightarrow>
               (let messages' = add_system_message (systemMessage searchText) messages
                in case payload_messages nfkd messages' of
                     Inl e \<Rightarrow> Inl (PayloadFailed e)
                   | Inr pm \<Rightarrow>
                       Inr \<lparr>search_query = q, conversation = messages', payload = pm\<rparr>)))"

text \<open>Building a request body: \<open>{messages: [{role, content}, ...]}\<close>.\<close>

definition message_json :: "string \<Rightarrow> ustring \<Rightarrow> js_value" where
  "message_json r c = JObj [(str ''role'', JStr (str r)), (str ''content'', JStr c)]"

definition body_json :: "js_value list \<Rightarrow> js_value" where
  "body_json msgs = JObj [(str ''messages'', JArr msgs)]"


text \<open>
  The content of the latest message whose role is \<open>user\<close>, as the comment at
  \<open>lastUserMessage\<close> and the specification describe the search query.
\<close>

definition spec_latest_user_content :: "ChatMessage list \<Rightarrow> ustring option" where
  "spec_latest_user_content messages =
     (case filter (\<lambda>msg. role msg = User) messages of
        [] \<Rightarrow> None
      | ms \<Rightarrow> Some (content (last ms)))"


section \<open>Sanitizer: properties\<close>

lemma replaceAll_ascii_id:
  assumes "\<exists>c \<in> set from. \<not> is_ascii c"
  shows "list_all is_ascii s \<Longrightarrow> replaceAll from to s = s"
proof (induction "length s" arbitrary: s rule: less_induct)
  case less
  from assms have ne: "from \<noteq> []" by auto
  show ?case
  proof (cases s)
    case Nil
    with ne show ?thesis by (subst replaceAll.simps) simp
  next
    case (Cons x xs)
    have nomatch: "take (length from) s \<noteq> from"
    proof
      assume eq: "take (length from) s = from"
      from assms obtain c where c: "c \<in> set from" "\<not> is_ascii c" by blast
      from c(1) eq have "c \<in> set s" by (metis in_set_takeD)
      with less.prems c(2) show False by (simp add: list_all_iff)
    qed
    have "replaceAll from to xs = xs"
      using less.hyps[of xs] less.prems Cons by simp
    with ne nomatch Cons show ?thesis
      by (subst replaceAll.simps) simp
  qed
qed

lemma fold_replacements_ascii_id:
  "list_all is_ascii s \<Longrightarrow>
   fold (\<lambda>(from, to) acc. replaceAll from to acc) replacements s = s"
  by (simp add: replacements_def replaceAll_ascii_id is_ascii_def)

lemma sanitizeContent_ascii:
  "sanitizeContent nfkd v = Inr y \<Longrightarrow> list_all is_ascii y"
  by (auto simp: sanitizeContent_def list_all_iff Let_def split: if_splits js_value.splits)

lemma sanitizeContent_string: "\<exists>y. sanitizeContent nfkd (JStr s) = Inr y"
  by (simp add: sanitizeContent_def Let_def)

lemma sanitizeContent_falsy: "\<not> truthy v \<Longrightarrow> sanitizeContent nfkd v = Inr []"
  by (simp add: sanitizeContent_def)

lemma sanitizeContent_not_string:
  "truthy v \<Longrightarrow> (\<forall>s. v \<noteq> JStr s) \<Longrightarrow> sanitizeContent nfkd v = Inl TypeError"
  by (cases v) (simp_all add: sanitizeContent_def)

lemma ascii_stable_sample: "ascii_stable nfkd_sample"
proof -
  have "list_all is_ascii s \<Longrightarrow> concat (map decompose_sample s) = s" for s
    by (induction s) (auto simp: decompose_sample_def is_ascii_def)
  then show ?thesis by (simp add: ascii_stable_def nfkd_sample_def)
qed

lemma sanitizeContent_ascii_id:
  assumes "ascii_stable nfkd" and "list_all is_ascii s"
  shows "sanitizeContent nfkd (JStr s) = Inr s"
proof (cases "s = []")
  case True
  then show ?thesis by (simp add: sanitizeContent_def)
next
  case False
  from assms have n: "(case nfkd s of Some n \<Rightarrow> n | None \<Rightarrow> s) = s"
    by (auto simp: ascii_stable_def split: option.splits)
  have f: "filter is_ascii s = s" using assms(2) by (simp add: list_all_iff)
  from False show ?thesis
    by (simp add: sanitizeContent_def n fold_replacements_ascii_id [OF assms(2)] f Let_def)
qed

lemma payload_messages_strings:
  "\<exists>ms. payload_messages nfkd messages = Inr ms \<and> map role ms = map role messages"
proof (induction messages)
  case Nil
  show ?case by simp
next
  case (Cons m rest)
  obtain y where y: "sanitizeContent nfkd (JStr (content m)) = Inr y"
    using sanitizeContent_string by blast
  from Cons obtain ms where "payload_messages nfkd rest = Inr ms" "map role ms = map role rest"
    by blast
  with y show ?case by simp
qed

text \<open>
  C7. As amended: \<open>sanitizeContent\<close> returns without failing for every string and for
  every falsy value, whatever the runtime's \<open>normalize\<close> does, a failing one too;
  \<open>null\<close>, \<open>undefined\<close> and the empty string give the empty string; every code unit of
  a result it returns is at most 0x7F.
\<close>

theorem sanitizeContent_returns_ascii_on_strings:
  "(\<exists>y. sanitizeContent nfkd (JStr s) = Inr y \<and> list_all (\<lambda>c. c \<le> 0x7F) y) \<and>
   sanitizeContent nfkd JNull = Inr [] \<and>
   sanitizeContent nfkd JUndefined = Inr [] \<and>
   sanitizeContent nfkd (JStr []) = Inr [] \<and>
   (\<not> truthy v \<longrightarrow> sanitizeContent nfkd v = Inr []) \<and>
   (sanitizeContent nfkd v = Inr r \<longrightarrow> list_all (\<lambda>c. c \<le> 0x7F) r)"
proof (intro conjI impI)
  obtain y where y: "sanitizeContent nfkd (JStr s) = Inr y"
    using sanitizeContent_string by blast
  then have "list_all (\<lambda>c. c \<le> 0x7F) y"
    using sanitizeContent_ascii [of nfkd "JStr s" y] by (simp add: list_all_iff is_ascii_def)
  with y show "\<exists>y. sanitizeContent nfkd (JStr s) = Inr y \<and> list_all (\<lambda>c. c \<le> 0x7F) y"
    by blast
next
  show "sanitizeContent nfkd JNull = Inr []" by (simp add: sanitizeContent_falsy)
next
  show "sanitizeContent nfkd JUndefined = Inr []" by (simp add: sanitizeContent_falsy)
next
  show "sanitizeContent nfkd (JStr []) = Inr []" by (simp add: sanitizeContent_falsy)
next
  assume "\<not> truthy v"
  then show "sanitizeContent nfkd v = Inr []" by (rule sanitizeContent_falsy)
next
  assume "sanitizeContent nfkd v = Inr r"
  then show "list_all (\<lambda>c. c \<le> 0x7F) r"
    using sanitizeContent_ascii [of nfkd v r] by (simp add: list_all_iff is_ascii_def)
qed

theorem sanitizeContent_returns_ascii_on_strings_witness:
  "sanitizeContent nfkd_sample
     (JStr [0x201C, 0x63, 0x61, 0x66, 0xE9, 0x201D, 0x2026, 0x2014, 0xFB01])
     = Inr [0x22, 0x63, 0x61, 0x66, 0x65, 0x22, 0x2E, 0x2E, 0x2E, 0x2D, 0x66, 0x69] \<and>
   list_all (\<lambda>c. c \<le> 0x7F)
     [0x22, 0x63, 0x61, 0x66, 0x65, 0x22, 0x2E, 0x2E, 0x2E, 0x2D, 0x66, 0x69 :: codeunit] \<and>
   \<not> truthy (JNum 0) \<and> sanitizeContent nfkd_sample (JNum 0) = Inr []"
proof -
  have e: "sanitizeContent nfkd_sample
      (JStr [0x201C, 0x63, 0x61, 0x66, 0xE9, 0x201D, 0x2026, 0x2014, 0xFB01])
      = Inr [0x22, 0x63, 0x61, 0x66, 0x65, 0x22, 0x2E, 0x2E, 0x2E, 0x2D, 0x66, 0x69]"
    by code_simp
  note inst = sanitizeContent_returns_ascii_on_strings
    [of nfkd_sample "[0x201C, 0x63, 0x61, 0x66, 0xE9, 0x201D, 0x2026, 0x2014, 0xFB01]" "JNum 0"
        "[]"]
  have f: "\<not> truthy (JNum 0)" by simp
  from inst e have "list_all (\<lambda>c. c \<le> 0x7F)
     [0x22, 0x63, 0x61, 0x66, 0x65, 0x22, 0x2E, 0x2E, 0x2E, 0x2D, 0x66, 0x69 :: codeunit]"
    by auto
  moreover from inst f have "sanitizeContent nfkd_sample (JNum 0) = Inr []" by blast
  ultimately show ?thesis using e f by blast
qed

text \<open>
  It does fail on a truthy value that is not a string, and the transformer hands it
  one when the delta's \<open>content\<close> is such a value, here the number 5.
\<close>

theorem sanitizeContent_throws_on_number:
  "sanitizeContent nfkd_sample (JNum 5) = Inl TypeError \<and>
   json_parse_sample (str ''{\"choices\":[{\"delta\":{\"content\":5}}]}'')
     = Some (JObj [(str ''choices'',
               JArr [JObj [(str ''delta'', JObj [(str ''content'', JNum 5)])]])]) \<and>
   delta_text nfkd_sample json_parse_sample (str ''{\"choices\":[{\"delta\":{\"content\":5}}]}'')
     = Inl TypeError"
proof -
  have p: "json_parse_sample (str ''{\"choices\":[{\"delta\":{\"content\":5}}]}'')
     = Some (JObj [(str ''choices'',
               JArr [JObj [(str ''delta'', JObj [(str ''content'', JNum 5)])]])])"
    by (simp add: json_parse_sample_def skip_ws_def is_json_ws_def unescape_def
          startsWith_def is_digit_def digits_value_def str_def)
  have s: "sanitizeContent nfkd_sample (JNum 5) = Inl TypeError"
    by (simp add: sanitizeContent_def)
  have d: "delta_content (JObj [(str ''choices'',
               JArr [JObj [(str ''delta'', JObj [(str ''content'', JNum 5)])]])])
             = Inr (JNum 5)"
    by (simp add: delta_content_def nullish_def str_def Let_def)
  show ?thesis by (simp add: p s d delta_text_def)
qed

text \<open>
  C6. \<open>sanitizeContent\<close> is idempotent, for a \<open>normalize\<close> that leaves 7-bit text as it
  is (or fails on it), as Unicode normalisation does: every string and \<open>null\<close> have a
  result, and sanitizing a result gives it back; on every value, sanitizing twice is
  sanitizing once.
\<close>

theorem sanitizeContent_idempotent:
  assumes "ascii_stable nfkd"
  shows "(\<exists>y. sanitizeContent nfkd (JStr s) = Inr y \<and> sanitizeContent nfkd (JStr y) = Inr y) \<and>
         (\<exists>y. sanitizeContent nfkd JNull = Inr y \<and> sanitizeContent nfkd (JStr y) = Inr y) \<and>
         (case sanitizeContent nfkd v of
            Inl e \<Rightarrow> Inl e
          | Inr y \<Rightarrow> sanitizeContent nfkd (JStr y)) = sanitizeContent nfkd v"
proof -
  have again: "sanitizeContent nfkd (JStr y) = Inr y" if "sanitizeContent nfkd w = Inr y" for w y
    using sanitizeContent_ascii_id [OF assms sanitizeContent_ascii [OF that]] .
  obtain y where y: "sanitizeContent nfkd (JStr s) = Inr y"
    using sanitizeContent_string by blast
  have n: "sanitizeContent nfkd JNull = Inr []" by (simp add: sanitizeContent_falsy)
  have "(case sanitizeContent nfkd v of
            Inl e \<Rightarrow> Inl e
          | Inr y \<Rightarrow> sanitizeContent nfkd (JStr y)) = sanitizeContent nfkd v"
    by (cases "sanitizeContent nfkd v") (simp_all add: again)
  with y again [OF y] n again [OF n] show ?thesis by blast
qed

theorem sanitizeContent_idempotent_witness:
  "ascii_stable nfkd_sample \<and>
   sanitizeContent nfkd_sample (JStr [0x201C, 0x63, 0x61, 0x66, 0xE9, 0x201D, 0x2026])
     = Inr [0x22, 0x63, 0x61, 0x66, 0x65, 0x22, 0x2E, 0x2E, 0x2E] \<and>
   sanitizeContent nfkd_sample (JStr [0x22, 0x63, 0x61, 0x66, 0x65, 0x22, 0x2E, 0x2E, 0x2E])
     = Inr [0x22, 0x63, 0x61, 0x66, 0x65, 0x22, 0x2E, 0x2E, 0x2E]"
proof -
  have e: "sanitizeContent nfkd_sample (JStr [0x201C, 0x63, 0x61, 0x66, 0xE9, 0x201D, 0x2026])
     = Inr [0x22, 0x63, 0x61, 0x66, 0x65, 0x22, 0x2E, 0x2E, 0x2E]"
    by code_simp
  from sanitizeContent_idempotent
    [OF ascii_stable_sample, of "[0x201C, 0x63, 0x61, 0x66, 0xE9, 0x201D, 0x2026]"] e
  have "sanitizeContent nfkd_sample (JStr [0x22, 0x63, 0x61, 0x66, 0x65, 0x22, 0x2E, 0x2E, 0x2E])
     = Inr [0x22, 0x63, 0x61, 0x66, 0x65, 0x22, 0x2E, 0x2E, 0x2E]"
    by auto
  with e ascii_stable_sample show ?thesis by blast
qed


section \<open>Downstream stream consumer: properties\<close>

lemmas consumer_eval = readStream_def consume_chunk_def consume_line_def token_join_def
  needsSpace_def test_alnum_def char_at_def is_alnum_def startsWith_def sse_event_def str_def

text \<open>The four examples of the token-join rule, and the rule for a payload that is not empty.\<close>

lemma token_join_examples:
  "token_join (str ''abc'') (str ''def'') = str ''abc def''"
  "token_join (str ''abc'') (str ''!'') = str ''abc!''"
  "token_join [] (str ''def'') = str ''def''"
  "token_join (str ''end.'') (str ''Next'') = str ''end.Next''"
  by (simp_all add: consumer_eval)

lemma needsSpace_nonempty_payload:
  assumes "c \<noteq> []"
  shows "needsSpace text c \<longleftrightarrow> text \<noteq> [] \<and> is_alnum (last text) \<and> is_alnum (hd c)"
proof (cases "text = []")
  case True
  then show ?thesis by (simp add: needsSpace_def)
next
  case False
  have n: "nat (int (length text) - 1) = length text - 1" by arith
  have l: "char_at text (int (length text) - 1) = Some (last text)"
    using False by (simp add: char_at_def last_conv_nth n)
  have f: "char_at c 0 = Some (hd c)"
    using assms by (simp add: char_at_def hd_conv_nth)
  show ?thesis using False by (simp add: needsSpace_def l f test_alnum_def)
qed

text \<open>
  C4. The rule says: a space exactly when the buffer is not empty, its last character is
  in \<open>[A-Za-z0-9]\<close> and the first character of the payload is; else no separator. On the
  empty payload (the line \<open>data: \<close>) the code reads \<open>content[0]\<close>, which is \<open>undefined\<close>, and
  the test of the regular expression on \<open>undefined\<close> succeeds: after a buffer that ends
  in a letter a space is appended, although the payload has no first character.
\<close>

theorem token_join_empty_payload:
  "needsSpace (str ''abc'') [] \<and>
   token_join (str ''abc'') [] = str ''abc '' \<and>
   consume_line (str ''abc'') (str ''data: '') = str ''abc ''"
  by (simp add: consumer_eval)

theorem token_join_empty_payload_witness:
  "consume_line (str ''abc'') (str ''data: '') \<noteq> str ''abc''"
  using token_join_empty_payload by (simp add: str_def)

text \<open>
  Such a line reaches the consumer whenever a delta begins with a line feed: the
  event \<open>data: \n\nNext\n\n\<close> is read as the line \<open>data: \<close> and lines without the prefix.
\<close>

lemma newline_delta_line:
  "readStream [sse_event (str ''abc''), sse_event ([0x0A, 0x0A] @ str ''Next'')] = str ''abc ''"
  by (simp add: consumer_eval)


section \<open>Resilient fetcher: properties\<close>

lemma attempt_fails:
  "fails (fetch (calls s)) \<Longrightarrow>
   attempt fetch s = (Inl (error_of (fetch (calls s))), s\<lparr>calls := calls s + 1\<rparr>)"
  by (auto simp: attempt_def fails_def error_of_def Let_def split: sum.splits)

lemma attempt_ok:
  "fetch (calls s) = Inr resp \<Longrightarrow> ok resp \<Longrightarrow>
   attempt fetch s = (Inr resp, s\<lparr>calls := calls s + 1\<rparr>)"
  by (auto simp: attempt_def Let_def)

lemma retry_step:
  "fails (fetch n) \<Longrightarrow> retries \<noteq> 0 \<Longrightarrow>
   fetchWithRetries fetch retries delay \<lparr>calls = n, waited = w\<rparr> =
     fetchWithRetries fetch (retries - 1) (delay * 2) \<lparr>calls = n + 1, waited = w + delay\<rparr>"
  by (subst fetchWithRetries.simps) (simp add: attempt_fails)

lemma last_step:
  "fails (fetch n) \<Longrightarrow>
   fetchWithRetries fetch 0 delay \<lparr>calls = n, waited = w\<rparr>
     = Some (Inl (error_of (fetch n)), \<lparr>calls = n + 1, waited = w\<rparr>)"
  by (subst fetchWithRetries.simps) (simp add: attempt_fails)

lemma ok_step:
  "fetch n = Inr resp \<Longrightarrow> ok resp \<Longrightarrow>
   fetchWithRetries fetch retries delay \<lparr>calls = n, waited = w\<rparr>
     = Some (Inr resp, \<lparr>calls = n + 1, waited = w\<rparr>)"
  by (subst fetchWithRetries.simps) (simp add: attempt_ok)

text \<open>
  C8. With the defaults (3 retries, 1000 ms): when the first two attempts fail and the
  third succeeds, the function returns that response after three calls and delays of
  1000 and 2000 ms; when the first four attempts fail it returns, after exactly four
  calls, the error of the fourth attempt as it is.
\<close>

theorem fetchWithRetries_default:
  "(fails (fetch 0) \<and> fails (fetch 1) \<and> fetch 2 = Inr resp \<and> ok resp \<longrightarrow>
      fetchWithRetries fetch 3 1000 \<lparr>calls = 0, waited = 0\<rparr>
        = Some (Inr resp, \<lparr>calls = 3, waited = 1000 + 2000\<rparr>)) \<and>
   (fails (fetch 0) \<and> fails (fetch 1) \<and> fails (fetch 2) \<and> fails (fetch 3) \<longrightarrow>
      fetchWithRetries fetch 3 1000 \<lparr>calls = 0, waited = 0\<rparr>
        = Some (Inl (error_of (fetch 3)), \<lparr>calls = 4, waited = 1000 + 2000 + 4000\<rparr>))"
proof (intro conjI impI)
  assume a: "fails (fetch 0) \<and> fails (fetch 1) \<and> fetch 2 = Inr resp \<and> ok resp"
  have "fetchWithRetries fetch 3 1000 \<lparr>calls = 0, waited = 0\<rparr>
          = fetchWithRetries fetch 2 2000 \<lparr>calls = 1, waited = 1000\<rparr>"
    using retry_step [of fetch 0 3 1000 0] a by (simp add: eval_nat_numeral)
  also have "\<dots> = fetchWithRetries fetch 1 4000 \<lparr>calls = 2, waited = 3000\<rparr>"
    using retry_step [of fetch 1 2 2000 1000] a by (simp add: eval_nat_numeral)
  also have "\<dots> = Some (Inr resp, \<lparr>calls = 3, waited = 3000\<rparr>)"
    using ok_step [of fetch 2 resp 1 4000 3000] a by (simp add: eval_nat_numeral)
  finally show "fetchWithRetries fetch 3 1000 \<lparr>calls = 0, waited = 0\<rparr>
        = Some (Inr resp, \<lparr>calls = 3, waited = 1000 + 2000\<rparr>)" by simp
next
  assume a: "fails (fetch 0) \<and> fails (fetch 1) \<and> fails (fetch 2) \<and> fails (fetch 3)"
  have "fetchWithRetries fetch 3 1000 \<lparr>calls = 0, waited = 0\<rparr>
          = fetchWithRetries fetch 2 2000 \<lparr>calls = 1, waited = 1000\<rparr>"
    using retry_step [of fetch 0 3 1000 0] a by (simp add: eval_nat_numeral)
  also have "\<dots> = fetchWithRetries fetch 1 4000 \<lparr>calls = 2, waited = 3000\<rparr>"
    using retry_step [of fetch 1 2 2000 1000] a by (simp add: eval_nat_numeral)
  also have "\<dots> = fetchWithRetries fetch 0 8000 \<lparr>calls = 3, waited = 7000\<rparr>"
    using retry_step [of fetch 2 1 4000 3000] a by (simp add: eval_nat_numeral)
  also have "\<dots> = Some (Inl (error_of (fetch 3)), \<lparr>calls = 4, waited = 7000\<rparr>)"
    using last_step [of fetch 3 8000 7000] a by (simp add: eval_nat_numeral)
  finally show "fetchWithRetries fetch 3 1000 \<lparr>calls = 0, waited = 0\<rparr>
        = Some (Inl (error_of (fetch 3)), \<lparr>calls = 4, waited = 1000 + 2000 + 4000\<rparr>)" by simp
qed

theorem fetchWithRetries_default_witness:
  "(fails (fetch_sample 0) \<and> fails (fetch_sample 1) \<and>
    fetch_sample 2 = Inr \<lparr>ok = True, status = 200, body_reads = []\<rparr> \<and>
    ok \<lparr>ok = True, status = 200, body_reads = []\<rparr>) \<and>
   fetchWithRetries fetch_sample 3 1000 \<lparr>calls = 0, waited = 0\<rparr>
        = Some (Inr \<lparr>ok = True, status = 200, body_reads = []\<rparr>, \<lparr>calls = 3, waited = 3000\<rparr>) \<and>
   (fails (fetch_down 0) \<and> fails (fetch_down 1) \<and> fails (fetch_down 2) \<and> fails (fetch_down 3)) \<and>
   fetchWithRetries fetch_down 3 1000 \<lparr>calls = 0, waited = 0\<rparr>
        = Some (Inl (HttpError 503), \<lparr>calls = 4, waited = 7000\<rparr>)"
  using fetchWithRetries_default [of fetch_sample "\<lparr>ok = True, status = 200, body_reads = []\<rparr>"]
        fetchWithRetries_default [of fetch_down]
  by (simp add: fetch_sample_def fetch_down_def fails_def error_of_def)


section \<open>Upstream stream transformer: properties\<close>

text \<open>
  Splitting chunk by chunk with a carried-over partial line gives the complete lines
  of the whole text; so the events are those of the complete lines, in order.
\<close>

lemma split_nl_nonempty: "split_nl s \<noteq> []"
  by (induction s) (auto split: list.splits)

lemma split_nl_append:
  "split_nl (a @ b) = butlast (split_nl a) @ split_nl (last (split_nl a) @ b)"
proof (induction a)
  case Nil
  show ?case by simp
next
  case (Cons c cs)
  show ?case
  proof (cases "c = 0x0A")
    case True
    with Cons show ?thesis by (simp add: split_nl_nonempty)
  next
    case False
    obtain l ls where sp: "split_nl cs = l # ls"
      using split_nl_nonempty [of cs] by (cases "split_nl cs") auto
    show ?thesis
    proof (cases ls)
      case Nil
      with False sp Cons show ?thesis by simp
    next
      case (Cons l' ls')
      with False sp Cons.IH show ?thesis by simp
    qed
  qed
qed

lemma complete_lines_append:
  "complete_lines (a @ b) = complete_lines a @ complete_lines (last (split_nl a) @ b)"
  unfolding complete_lines_def
  by (subst split_nl_append) (simp add: butlast_append split_nl_nonempty)

lemma last_split_nl_append:
  "last (split_nl (a @ b)) = last (split_nl (last (split_nl a) @ b))"
  by (subst split_nl_append) (simp add: split_nl_nonempty)

lemma split_nl_no_newline: "l \<in> set (split_nl s) \<Longrightarrow> 0x0A \<notin> set l"
proof (induction s arbitrary: l)
  case Nil
  then show ?case by simp
next
  case (Cons c cs)
  obtain x xs where sp: "split_nl cs = x # xs"
    using split_nl_nonempty [of cs] by (cases "split_nl cs") auto
  from Cons sp show ?case by (auto split: if_splits)
qed

lemma split_nl_line: "0x0A \<notin> set l \<Longrightarrow> split_nl l = [l]"
  by (induction l) auto

lemma complete_lines_partial: "complete_lines (last (split_nl s)) = []"
proof -
  have "0x0A \<notin> set (last (split_nl s))"
    using split_nl_no_newline [of "last (split_nl s)" s] split_nl_nonempty [of s] by simp
  then show ?thesis by (simp add: complete_lines_def split_nl_line)
qed

lemma read_loop_lines:
  "complete_lines buffer = [] \<Longrightarrow>
   read_loop nfkd parse dec d buffer reads =
     (concat (map (process_line nfkd parse)
        (complete_lines (buffer @ fst (upstream_text dec d reads)))),
      snd (upstream_text dec d reads))"
proof (induction reads arbitrary: d buffer)
  case Nil
  then show ?case by simp
next
  case (Cons r rest)
  show ?case
  proof (cases r)
    case ReadError
    with Cons.prems show ?thesis by simp
  next
    case (Chunk val)
    show ?thesis
    proof (cases "decode_chunk dec d val")
      case None
      with Chunk Cons.prems show ?thesis by simp
    next
      case (Some p)
      obtain d' t where p: "p = (d', t)" by (cases p)
      let ?b = "last (split_nl (buffer @ t))"
      have ih: "read_loop nfkd parse dec d' ?b rest =
          (concat (map (process_line nfkd parse)
             (complete_lines (?b @ fst (upstream_text dec d' rest)))),
           snd (upstream_text dec d' rest))"
        by (rule Cons.IH) (rule complete_lines_partial)
      have cl: "complete_lines (buffer @ t @ fst (upstream_text dec d' rest)) =
            complete_lines (buffer @ t) @ complete_lines (?b @ fst (upstream_text dec d' rest))"
        using complete_lines_append [of "buffer @ t"] by simp
      show ?thesis
        using Chunk Some p ih cl
        by (simp add: Let_def split_beta complete_lines_def [of "buffer @ t"])
    qed
  qed
qed

lemma transform_stream_lines:
  "transform_stream nfkd parse dec d0 reads =
     (concat (map (process_line nfkd parse) (complete_lines (fst (upstream_text dec d0 reads)))),
      snd (upstream_text dec d0 reads))"
  unfolding transform_stream_def
  using read_loop_lines [of "[]" nfkd parse dec d0 reads]
  by (simp add: complete_lines_def)

lemma data_line_not_blank:
  assumes "startsWith line (str ''data: '')"
  shows "trim line \<noteq> []"
proof -
  from assms obtain rest where l: "line = 0x64 # rest"
    by (cases line) (auto simp: startsWith_def str_def)
  have nsp: "\<not> is_js_space (0x64 :: codeunit)" by (simp add: is_js_space_def)
  have "dropWhile is_js_space line = line" using l nsp by simp
  moreover have "dropWhile is_js_space (rev line) \<noteq> []"
    using l nsp by (auto simp: dropWhile_eq_Nil_conv)
  ultimately show ?thesis by (simp add: trim_def)
qed

lemma process_line_cases:
  "process_line nfkd parse line =
     (if \<not> startsWith line (str ''data: '') then []
      else if drop 6 line = str ''[DONE]'' then [sse_event (str ''[DONE]'')]
      else case delta_text nfkd parse (drop 6 line) of
        Inl e \<Rightarrow> []
      | Inr c \<Rightarrow> if c = [] then [] else [sse_event c])"
proof (cases "startsWith line (str ''data: '')")
  case False
  then show ?thesis by (simp add: process_line_def)
next
  case True
  have ev: "str ''data: [DONE]'' @ [0x0A, 0x0A] = sse_event (str ''[DONE]'')"
    by (simp add: sse_event_def str_def)
  from True data_line_not_blank [OF True] show ?thesis
    by (simp add: process_line_def Let_def ev sse_event_def split: sum.splits)
qed

lemma sse_event_inject: "sse_event p = sse_event q \<longleftrightarrow> p = q"
  by (simp add: sse_event_def)

lemma process_line_payload:
  "e \<in> set (process_line nfkd parse line) \<Longrightarrow> \<exists>p. p \<noteq> [] \<and> e = sse_event p"
  by (auto simp: process_line_cases str_def split: if_splits sum.splits)

lemma count_done_process_line:
  "count_list (process_line nfkd parse line) (sse_event (str ''[DONE]'')) =
     (if line = str ''data: [DONE]'' then 1 else 0) +
     (if delta_is_done nfkd parse line then 1 else 0)"
proof -
  have a: "line = str ''data: [DONE]'' \<longleftrightarrow>
           startsWith line (str ''data: '') \<and> drop 6 line = str ''[DONE]''"
  proof
    assume "line = str ''data: [DONE]''"
    then show "startsWith line (str ''data: '') \<and> drop 6 line = str ''[DONE]''"
      by (simp add: startsWith_def str_def)
  next
    assume h: "startsWith line (str ''data: '') \<and> drop 6 line = str ''[DONE]''"
    have "line = take 6 line @ drop 6 line" by simp
    also have "take 6 line = str ''data: ''"
    proof -
      have "length (str ''data: '') = 6" by (simp add: str_def)
      with h show ?thesis unfolding startsWith_def by simp
    qed
    also have "drop 6 line = str ''[DONE]''" using h by simp
    finally show "line = str ''data: [DONE]''" by (simp add: str_def)
  qed
  have ne: "str ''[DONE]'' \<noteq> []" by (simp add: str_def)
  show ?thesis
    unfolding process_line_cases delta_is_done_def a
    using ne by (auto simp: sse_event_inject split: sum.splits)
qed

lemma count_list_concat_map:
  "count_list (concat (map f xs)) y = (\<Sum>x\<leftarrow>xs. count_list (f x) y)"
  by (induction xs) (simp_all add: count_list_append)

lemma sum_list_indicator:
  "(\<Sum>x\<leftarrow>xs. (if P x then 1 else 0)) = length (filter P xs)"
  by (induction xs) simp_all

lemma count_list_as_sum: "count_list xs y = (\<Sum>x\<leftarrow>xs. (if x = y then 1 else 0))"
  by (induction xs) simp_all

lemma ascii_faithful_sample: "ascii_faithful ascii_decoder ()"
  by (simp add: ascii_faithful_def ascii_decoder_def)

lemma decode_chunk_ascii:
  "ascii_faithful dec d \<Longrightarrow> list_all (\<lambda>b. b \<le> 0x7F) bs \<Longrightarrow>
   decode_chunk dec d bs = Some (d, map ucast bs)"
  by (simp add: ascii_faithful_def decode_chunk_def)

lemma upstream_text_ascii:
  "ascii_faithful dec d \<Longrightarrow> list_all (\<lambda>b. b \<le> 0x7F) (concat chunks) \<Longrightarrow>
   upstream_text dec d (map Chunk chunks) = (map ucast (concat chunks), Closed)"
  by (induction chunks) (simp_all add: decode_chunk_ascii)

lemma ascii_stream_closes:
  "ascii_faithful dec d \<Longrightarrow> list_all (\<lambda>b. b \<le> 0x7F) (concat chunks) \<Longrightarrow>
   snd (transform_stream nfkd parse dec d (map Chunk chunks)) = Closed"
  by (simp add: transform_stream_lines upstream_text_ascii del: upstream_text.simps)

lemma delta_content_delta_json: "delta_content (delta_json t) = Inr (JStr t)"
  by (simp add: delta_content_def delta_json_def nullish_def str_def Let_def)

lemma delta_text_delta_json:
  "parse j = Some (delta_json t) \<Longrightarrow>
   delta_text nfkd parse j = sanitizeContent nfkd (JStr t)"
  by (simp add: delta_text_def delta_content_delta_json sanitizeContent_def)

lemma process_delta_line:
  assumes "parse j = Some (delta_json t)" and "j \<noteq> str ''[DONE]''"
    and "ascii_stable nfkd" and "list_all is_ascii t" and "t \<noteq> []"
  shows "process_line nfkd parse (str ''data: '' @ j) = [sse_event t]"
proof -
  have "startsWith (str ''data: '' @ j) (str ''data: '')" by (simp add: startsWith_def)
  moreover have "drop 6 (str ''data: '' @ j) = j" by (simp add: str_def)
  ultimately show ?thesis
    using assms
    by (simp add: process_line_cases delta_text_delta_json sanitizeContent_ascii_id)
qed

lemma process_blank_line: "process_line nfkd parse [] = []"
  by (simp add: process_line_def trim_def)

lemma process_done_line:
  "process_line nfkd parse (str ''data: [DONE]'') = [sse_event (str ''[DONE]'')]"
  by (simp add: process_line_cases startsWith_def str_def)

lemma hello_lines:
  "complete_lines (map ucast (bytes hello_upstream)) =
     [str ''data: '' @ str ''{\"choices\":[{\"delta\":{\"content\":\"Hel\"}}]}'', [],
      str ''data: '' @ str ''{\"choices\":[{\"delta\":{\"content\":\"lo\"}}]}'', [],
      str ''data: [DONE]'', []]"
  by (simp add: complete_lines_def bytes_def hello_upstream_def str_def)

lemma hello_ascii: "list_all (\<lambda>b. b \<le> 0x7F) (bytes hello_upstream)"
  by (simp add: bytes_def hello_upstream_def)

lemma hello_transform:
  assumes "ascii_faithful dec d0" and "ascii_stable nfkd"
    and "parse (str ''{\"choices\":[{\"delta\":{\"content\":\"Hel\"}}]}'') = Some (delta_json (str ''Hel''))"
    and "parse (str ''{\"choices\":[{\"delta\":{\"content\":\"lo\"}}]}'') = Some (delta_json (str ''lo''))"
    and "concat chunks = bytes hello_upstream"
  shows "transform_stream nfkd parse dec d0 (map Chunk chunks) =
           ([sse_event (str ''Hel''), sse_event (str ''lo''), sse_event (str ''[DONE]'')], Closed)"
proof -
  have up: "upstream_text dec d0 (map Chunk chunks) = (map ucast (bytes hello_upstream), Closed)"
    using upstream_text_ascii [OF assms(1), of chunks] hello_ascii assms(5) by simp
  have a: "process_line nfkd parse (str ''data: '' @ str ''{\"choices\":[{\"delta\":{\"content\":\"Hel\"}}]}'')
             = [sse_event (str ''Hel'')]"
    using assms(2,3) by (intro process_delta_line) (simp_all add: str_def is_ascii_def)
  have b: "process_line nfkd parse (str ''data: '' @ str ''{\"choices\":[{\"delta\":{\"content\":\"lo\"}}]}'')
             = [sse_event (str ''lo'')]"
    using assms(2,4) by (intro process_delta_line) (simp_all add: str_def is_ascii_def)
  show ?thesis
    by (simp add: transform_stream_lines up hello_lines a b process_blank_line process_done_line)
qed

lemma hello_consume:
  "readStream [sse_event (str ''Hel''), sse_event (str ''lo''), sse_event (str ''[DONE]'')]
     = str ''Hel lo''"
  by (simp add: consumer_eval)

lemma hello_consume_one_chunk:
  "readStream [sse_event (str ''Hel'') @ sse_event (str ''lo'') @ sse_event (str ''[DONE]'')]
     = str ''Hel lo''"
  by (simp add: consumer_eval)

lemmas json_eval = json_parse_sample_def skip_ws_def is_json_ws_def unescape_def
  startsWith_def is_digit_def digits_value_def delta_json_def str_def

lemma parse_sample_Hel:
  "json_parse_sample (str ''{\"choices\":[{\"delta\":{\"content\":\"Hel\"}}]}'') = Some (delta_json (str ''Hel''))"
  by (simp add: json_eval)

lemma parse_sample_lo:
  "json_parse_sample (str ''{\"choices\":[{\"delta\":{\"content\":\"lo\"}}]}'') = Some (delta_json (str ''lo''))"
  by (simp add: json_eval)

lemma two_done_text:
  "upstream_text ascii_decoder () [Chunk (bytes two_done_upstream)]
     = (map ucast (bytes two_done_upstream), Closed)"
  using upstream_text_ascii [OF ascii_faithful_sample, of "[bytes two_done_upstream]"]
  by (simp add: bytes_def two_done_upstream_def)

lemma two_done_lines:
  "complete_lines (map ucast (bytes two_done_upstream))
     = [str ''data: [DONE]'', [], str ''data: [DONE]'', []]"
  by (simp add: complete_lines_def bytes_def two_done_upstream_def str_def)

lemma parse_sample_cjk:
  "json_parse_sample (str ''{\"choices\":[{\"delta\":{\"content\":\"'' @ [0x4E2D] @ str ''\"}}]}'')
     = Some (delta_json [0x4E2D])"
  by (simp add: json_eval)

lemma sanitize_sample_cjk: "sanitizeContent nfkd_sample (JStr [0x4E2D]) = Inr []"
  by code_simp

lemma parse_sample_done_text:
  "json_parse_sample (str ''{\"choices\":[{\"delta\":{\"content\":\"[DONE]\"}}]}'')
     = Some (delta_json (str ''[DONE]''))"
  by (simp add: json_eval)

lemma done_as_delta_text:
  "process_line nfkd_sample json_parse_sample
     (str ''data: '' @ str ''{\"choices\":[{\"delta\":{\"content\":\"[DONE]\"}}]}'')
     = [sse_event (str ''[DONE]'')]"
  using parse_sample_done_text ascii_stable_sample
  by (intro process_delta_line) (simp_all add: str_def is_ascii_def)

text \<open>
  C9. Every event the transformer emits carries a payload that is not empty; and a
  line whose payload parses gives an event only when the sanitized delta text is not
  empty: none when the delta is absent, empty or sanitized to nothing, none when
  reading it fails.
\<close>

theorem no_event_for_empty_delta:
  "(\<forall>e \<in> set (fst (transform_stream nfkd parse dec d0 reads)). \<exists>p. p \<noteq> [] \<and> e = sse_event p) \<and>
   (parse jsonData = Some data \<and> jsonData \<noteq> str ''[DONE]'' \<longrightarrow>
      process_line nfkd parse (str ''data: '' @ jsonData) =
        (case delta_text nfkd parse jsonData of
           Inl e \<Rightarrow> []
         | Inr c \<Rightarrow> if c = [] then [] else [sse_event c]))"
proof
  show "\<forall>e \<in> set (fst (transform_stream nfkd parse dec d0 reads)). \<exists>p. p \<noteq> [] \<and> e = sse_event p"
    by (auto simp: transform_stream_lines dest: process_line_payload)
  show "parse jsonData = Some data \<and> jsonData \<noteq> str ''[DONE]'' \<longrightarrow>
      process_line nfkd parse (str ''data: '' @ jsonData) =
        (case delta_text nfkd parse jsonData of
           Inl e \<Rightarrow> []
         | Inr c \<Rightarrow> if c = [] then [] else [sse_event c])"
    by (simp add: process_line_cases startsWith_def str_def)
qed

theorem no_event_for_empty_delta_witness:
  "json_parse_sample (str ''{\"choices\":[{\"delta\":{\"content\":\"'' @ [0x4E2D] @ str ''\"}}]}'')
     = Some (delta_json [0x4E2D]) \<and>
   str ''{\"choices\":[{\"delta\":{\"content\":\"'' @ [0x4E2D] @ str ''\"}}]}'' \<noteq> str ''[DONE]'' \<and>
   process_line nfkd_sample json_parse_sample
     (str ''data: '' @ str ''{\"choices\":[{\"delta\":{\"content\":\"'' @ [0x4E2D] @ str ''\"}}]}'') = [] \<and>
   sse_event (str ''Hel'') \<in> set (fst (transform_stream nfkd_sample json_parse_sample ascii_decoder ()
      (map Chunk [bytes hello_upstream]))) \<and>
   (\<exists>p. p \<noteq> [] \<and> sse_event (str ''Hel'') = sse_event p)"
proof -
  let ?j = "str ''{\"choices\":[{\"delta\":{\"content\":\"'' @ [0x4E2D] @ str ''\"}}]}''"
  note inst = no_event_for_empty_delta
    [of nfkd_sample json_parse_sample ascii_decoder "()" "map Chunk [bytes hello_upstream]"
        ?j "delta_json [0x4E2D]"]
  have ne: "?j \<noteq> str ''[DONE]''" by (simp add: str_def)
  have dt: "delta_text nfkd_sample json_parse_sample ?j = Inr []"
    using delta_text_delta_json [of json_parse_sample ?j "[0x4E2D]" nfkd_sample] parse_sample_cjk
    by (simp only: sanitize_sample_cjk)
  have pl: "process_line nfkd_sample json_parse_sample (str ''data: '' @ ?j) = []"
    using inst parse_sample_cjk ne dt by simp
  have c: "concat [bytes hello_upstream] = bytes hello_upstream" by simp
  have tr: "transform_stream nfkd_sample json_parse_sample ascii_decoder ()
          (map Chunk [bytes hello_upstream]) =
        ([sse_event (str ''Hel''), sse_event (str ''lo''), sse_event (str ''[DONE]'')], Closed)"
    by (rule hello_transform
          [OF ascii_faithful_sample ascii_stable_sample parse_sample_Hel parse_sample_lo c])
  have mem: "sse_event (str ''Hel'') \<in> set (fst (transform_stream nfkd_sample json_parse_sample
      ascii_decoder () (map Chunk [bytes hello_upstream])))"
    by (simp only: tr) simp
  from inst mem have "\<exists>p. p \<noteq> [] \<and> sse_event (str ''Hel'') = sse_event p" by blast
  with parse_sample_cjk ne pl mem show ?thesis by blast
qed

text \<open>
  C5. As amended: the transformer emits one terminal event for each complete upstream
  line \<open>data: [DONE]\<close>, and one more for each other line whose sanitized delta text is
  \<open>[DONE]\<close>; nothing else gives that event. It goes on after a terminal line, and the
  output ends as the reading of the upstream ends: closed at the end of the stream,
  with or without a terminal line.
\<close>

theorem done_events_counted:
  assumes "upstream_text dec d0 reads = (text, oc)"
  shows "\<exists>events. transform_stream nfkd parse dec d0 reads = (events, oc) \<and>
           count_list events (sse_event (str ''[DONE]'')) =
             count_list (complete_lines text) (str ''data: [DONE]'') +
             length (filter (delta_is_done nfkd parse) (complete_lines text))"
proof -
  let ?ls = "complete_lines text"
  have "transform_stream nfkd parse dec d0 reads =
          (concat (map (process_line nfkd parse) ?ls), oc)"
    using assms by (simp add: transform_stream_lines)
  moreover have "count_list (concat (map (process_line nfkd parse) ?ls)) (sse_event (str ''[DONE]''))
      = count_list ?ls (str ''data: [DONE]'') + length (filter (delta_is_done nfkd parse) ?ls)"
    by (simp add: count_list_concat_map count_done_process_line sum_list_addf
          sum_list_indicator count_list_as_sum [of ?ls])
  ultimately show ?thesis by blast
qed

theorem done_events_counted_witness:
  "upstream_text ascii_decoder () [Chunk (bytes two_done_upstream)]
     = (map ucast (bytes two_done_upstream), Closed) \<and>
   (\<exists>events. transform_stream nfkd_sample json_parse_sample ascii_decoder ()
        [Chunk (bytes two_done_upstream)] = (events, Closed) \<and>
      count_list events (sse_event (str ''[DONE]'')) =
        count_list (complete_lines (map ucast (bytes two_done_upstream))) (str ''data: [DONE]'') +
        length (filter (delta_is_done nfkd_sample json_parse_sample)
          (complete_lines (map ucast (bytes two_done_upstream))))) \<and>
   count_list (complete_lines (map ucast (bytes two_done_upstream))) (str ''data: [DONE]'') = 2"
proof -
  have ne: "str ''data: [DONE]'' \<noteq> []" by (simp add: str_def)
  have "count_list (complete_lines (map ucast (bytes two_done_upstream))) (str ''data: [DONE]'') = 2"
    using ne by (simp add: two_done_lines)
  with done_events_counted [OF two_done_text, of nfkd_sample json_parse_sample] two_done_text
  show ?thesis by blast
qed

text \<open>
  An upstream with two terminal lines has at least one, and the output has two terminal
  events, not exactly one.
\<close>

theorem two_done_lines_two_events:
  "\<not> (count_list (fst (transform_stream nfkd_sample json_parse_sample ascii_decoder ()
                        [Chunk (bytes two_done_upstream)])) (sse_event (str ''[DONE]'')) = 1
      \<longleftrightarrow> 1 \<le> count_list (complete_lines (fst (upstream_text ascii_decoder ()
                        [Chunk (bytes two_done_upstream)]))) (str ''data: [DONE]''))"
proof -
  have ne: "str ''data: [DONE]'' \<noteq> []" by (simp add: str_def)
  show ?thesis
    using ne
    by (simp add: transform_stream_lines two_done_text two_done_lines
          process_blank_line process_done_line sse_event_inject del: upstream_text.simps)
qed

text \<open>
  C1. As amended: for the upstream of the two deltas \<open>Hel\<close> and \<open>lo\<close> and the terminal
  line, in any division into chunks, the output is \<open>data: Hel\n\n\<close>, \<open>data: lo\n\n\<close>,
  \<open>data: [DONE]\n\n\<close> and the stream closes; the consumer, given these events one per
  chunk or all in one chunk, ends with the buffer \<open>Hel lo\<close>: \<open>l\<close> and \<open>l\<close> are both in
  \<open>[A-Za-z0-9]\<close>, so a space is inserted.
\<close>

theorem hello_stream_reframed_and_joined:
  assumes "ascii_faithful dec d0" and "ascii_stable nfkd"
    and "parse (str ''{\"choices\":[{\"delta\":{\"content\":\"Hel\"}}]}'') = Some (delta_json (str ''Hel''))"
    and "parse (str ''{\"choices\":[{\"delta\":{\"content\":\"lo\"}}]}'') = Some (delta_json (str ''lo''))"
    and "concat chunks = bytes hello_upstream"
  shows "transform_stream nfkd parse dec d0 (map Chunk chunks) =
           ([sse_event (str ''Hel''), sse_event (str ''lo''), sse_event (str ''[DONE]'')], Closed) \<and>
         readStream [sse_event (str ''Hel''), sse_event (str ''lo''), sse_event (str ''[DONE]'')]
           = str ''Hel lo'' \<and>
         readStream [sse_event (str ''Hel'') @ sse_event (str ''lo'') @ sse_event (str ''[DONE]'')]
           = str ''Hel lo''"
  using hello_transform [OF assms] hello_consume hello_consume_one_chunk by simp

theorem hello_stream_reframed_and_joined_witness:
  "ascii_faithful ascii_decoder () \<and> ascii_stable nfkd_sample \<and>
   json_parse_sample (str ''{\"choices\":[{\"delta\":{\"content\":\"Hel\"}}]}'') = Some (delta_json (str ''Hel'')) \<and>
   json_parse_sample (str ''{\"choices\":[{\"delta\":{\"content\":\"lo\"}}]}'') = Some (delta_json (str ''lo'')) \<and>
   concat [take 50 (bytes hello_upstream), drop 50 (bytes hello_upstream)] = bytes hello_upstream \<and>
   transform_stream nfkd_sample json_parse_sample ascii_decoder ()
       (map Chunk [take 50 (bytes hello_upstream), drop 50 (bytes hello_upstream)]) =
     ([sse_event (str ''Hel''), sse_event (str ''lo''), sse_event (str ''[DONE]'')], Closed) \<and>
   readStream [sse_event (str ''Hel''), sse_event (str ''lo''), sse_event (str ''[DONE]'')]
     = str ''Hel lo''"
proof -
  have c: "concat [take 50 (bytes hello_upstream), drop 50 (bytes hello_upstream)] = bytes hello_upstream"
    by simp
  show ?thesis
    using hello_stream_reframed_and_joined
      [OF ascii_faithful_sample ascii_stable_sample parse_sample_Hel parse_sample_lo c]
      ascii_faithful_sample ascii_stable_sample parse_sample_Hel parse_sample_lo c
    by blast
qed

text \<open>The buffer is not \<open>Hello\<close>.\<close>

theorem hello_buffer_is_not_Hello:
  "readStream (fst (transform_stream nfkd_sample json_parse_sample ascii_decoder ()
      [Chunk (bytes hello_upstream)])) \<noteq> str ''Hello''"
proof -
  have c: "concat [bytes hello_upstream] = bytes hello_upstream" by simp
  have "transform_stream nfkd_sample json_parse_sample ascii_decoder ()
          (map Chunk [bytes hello_upstream]) =
        ([sse_event (str ''Hel''), sse_event (str ''lo''), sse_event (str ''[DONE]'')], Closed)"
    by (rule hello_transform
          [OF ascii_faithful_sample ascii_stable_sample parse_sample_Hel parse_sample_lo c])
  then show ?thesis by (simp add: hello_consume) (simp add: str_def)
qed


section \<open>Request handling: properties\<close>

lemmas body_eval = validate_body_def body_json_def message_json_def validate_message_def
  str_def role_of_def trim_def is_js_space_def

lemma validate_whitespace:
  "validate_body (Some (body_json [message_json ''user'' (str '' ''),
                                    message_json ''user'' (str ''hi'')]))
     = Inr [\<lparr>role = User, content = []\<rparr>, \<lparr>role = User, content = str ''hi''\<rparr>]"
  by (simp add: body_eval)

text \<open>
  A body that passes validation, with both keys set and a search that returns, is
  prepared: the contents of the messages are strings, so no call of the sanitizer
  throws.
\<close>

lemma POST_prepare_accepts:
  assumes "k1 \<noteq> []" and "k2 \<noteq> []" and "validate_body b = Inr messages"
    and "search (content (lastUserMessage messages)) = Some t"
  shows "\<exists>pm. POST_prepare nfkd search (Some k1) (Some k2) b =
            Inr \<lparr>search_query = content (lastUserMessage messages),
                  conversation = add_system_message (systemMessage t) messages,
                  payload = pm\<rparr> \<and>
          payload_messages nfkd (add_system_message (systemMessage t) messages) = Inr pm"
proof -
  obtain pm where "payload_messages nfkd (add_system_message (systemMessage t) messages) = Inr pm"
    using payload_messages_strings by blast
  with assms show ?thesis by (simp add: POST_prepare_def Let_def)
qed

text \<open>
  Where every message with the role \<open>system\<close> is at index 0, the injection leaves
  exactly one, the new one, at index 0.
\<close>

lemma add_system_message_when_well_placed:
  assumes "\<forall>i < length messages. role (messages ! i) = System \<longrightarrow> i = 0"
  shows "filter (\<lambda>m. role m = System) (add_system_message (systemMessage t) messages)
           = [systemMessage t] \<and>
         add_system_message (systemMessage t) messages ! 0 = systemMessage t"
proof (cases messages)
  case Nil
  then show ?thesis by (simp add: add_system_message_def systemMessage_def)
next
  case (Cons m ms)
  have tail: "\<forall>x \<in> set ms. role x \<noteq> System"
  proof
    fix x assume "x \<in> set ms"
    then obtain j where j: "j < length ms" "ms ! j = x" by (auto simp: in_set_conv_nth)
    from assms [rule_format, of "Suc j"] j Cons show "role x \<noteq> System" by auto
  qed
  then have f: "filter (\<lambda>m. role m = System) ms = []" by (simp add: filter_empty_conv)
  show ?thesis
    using Cons f tail
    by (auto simp: add_system_message_def systemMessage_def list_ex_iff)
qed

text \<open>
  C2. The specification: after the injection at most one message has the role \<open>system\<close>, at
  index 0, and the injected one replaces the one there was. The body with the messages
  user, system, user passes validation; the code then overwrites index 0, the first
  user message, and keeps the old system message at index 1: two system messages.
\<close>

theorem system_message_overwrites_index_0:
  "validate_body (Some (body_json [message_json ''user'' (str ''hi''),
                                    message_json ''system'' (str ''be brief''),
                                    message_json ''user'' (str ''and?'')]))
     = Inr [\<lparr>role = User, content = str ''hi''\<rparr>,
            \<lparr>role = System, content = str ''be brief''\<rparr>,
            \<lparr>role = User, content = str ''and?''\<rparr>] \<and>
   map_sum id conversation
     (POST_prepare nfkd_sample (\<lambda>q. Some (str ''{}'')) (Some (str ''k1'')) (Some (str ''k2''))
        (Some (body_json [message_json ''user'' (str ''hi''),
                          message_json ''system'' (str ''be brief''),
                          message_json ''user'' (str ''and?'')])))
     = Inr [systemMessage (str ''{}''),
            \<lparr>role = System, content = str ''be brief''\<rparr>,
            \<lparr>role = User, content = str ''and?''\<rparr>] \<and>
   map role [systemMessage (str ''{}''),
             \<lparr>role = System, content = str ''be brief''\<rparr>,
             \<lparr>role = User, content = str ''and?''\<rparr>] = [System, System, User]"
proof -
  let ?ms = "[\<lparr>role = User, content = str ''hi''\<rparr>,
              \<lparr>role = System, content = str ''be brief''\<rparr>,
              \<lparr>role = User, content = str ''and?''\<rparr>]"
  let ?b = "Some (body_json [message_json ''user'' (str ''hi''),
                             message_json ''system'' (str ''be brief''),
                             message_json ''user'' (str ''and?'')])"
  have v: "validate_body ?b = Inr ?ms" by (simp add: body_eval)
  have k: "str ''k1'' \<noteq> []" "str ''k2'' \<noteq> []" by (simp_all add: str_def)
  have inj: "add_system_message (systemMessage (str ''{}'')) ?ms =
      [systemMessage (str ''{}''), \<lparr>role = System, content = str ''be brief''\<rparr>,
       \<lparr>role = User, content = str ''and?''\<rparr>]"
    by (simp add: add_system_message_def)
  obtain pm where "POST_prepare nfkd_sample (\<lambda>q. Some (str ''{}'')) (Some (str ''k1''))
      (Some (str ''k2'')) ?b =
        Inr \<lparr>search_query = content (lastUserMessage ?ms),
              conversation = add_system_message (systemMessage (str ''{}'')) ?ms,
              payload = pm\<rparr>"
    using POST_prepare_accepts [OF k v, of "\<lambda>q. Some (str ''{}'')" "str ''{}''" nfkd_sample]
    by auto
  then have "map_sum id conversation
     (POST_prepare nfkd_sample (\<lambda>q. Some (str ''{}'')) (Some (str ''k1'')) (Some (str ''k2'')) ?b)
     = Inr [systemMessage (str ''{}''), \<lparr>role = System, content = str ''be brief''\<rparr>,
            \<lparr>role = User, content = str ''and?''\<rparr>]"
    by (simp add: inj)
  moreover have "map role [systemMessage (str ''{}''),
             \<lparr>role = System, content = str ''be brief''\<rparr>,
             \<lparr>role = User, content = str ''and?''\<rparr>] = [System, System, User]"
    by (simp add: systemMessage_def)
  ultimately show ?thesis using v by blast
qed

theorem system_message_overwrites_index_0_witness:
  "\<exists>p. POST_prepare nfkd_sample (\<lambda>q. Some (str ''{}'')) (Some (str ''k1'')) (Some (str ''k2''))
          (Some (body_json [message_json ''user'' (str ''hi''),
                            message_json ''system'' (str ''be brief''),
                            message_json ''user'' (str ''and?'')])) = Inr p \<and>
       map role (conversation p) = [System, System, User]"
  using system_message_overwrites_index_0
  by (cases "POST_prepare nfkd_sample (\<lambda>q. Some (str ''{}'')) (Some (str ''k1'')) (Some (str ''k2''))
          (Some (body_json [message_json ''user'' (str ''hi''),
                            message_json ''system'' (str ''be brief''),
                            message_json ''user'' (str ''and?'')]))") auto

text \<open>
  C3. The specification: the search query is the content of the latest message whose role is
  \<open>user\<close>. The code takes the last message whatever its role: for the messages user
  \<open>weather?\<close>, assistant \<open>Sunny\<close> the query is \<open>Sunny\<close>.
\<close>

theorem query_is_last_message_of_any_role:
  "validate_body (Some (body_json [message_json ''user'' (str ''weather?''),
                                    message_json ''assistant'' (str ''Sunny'')]))
     = Inr [\<lparr>role = User, content = str ''weather?''\<rparr>,
            \<lparr>role = Assistant, content = str ''Sunny''\<rparr>] \<and>
   map_sum id search_query
     (POST_prepare nfkd_sample (\<lambda>q. Some (str ''{}'')) (Some (str ''k1'')) (Some (str ''k2''))
        (Some (body_json [message_json ''user'' (str ''weather?''),
                          message_json ''assistant'' (str ''Sunny'')])))
     = Inr (str ''Sunny'') \<and>
   spec_latest_user_content
     [\<lparr>role = User, content = str ''weather?''\<rparr>,
      \<lparr>role = Assistant, content = str ''Sunny''\<rparr>]
     = Some (str ''weather?'')"
proof -
  let ?ms = "[\<lparr>role = User, content = str ''weather?''\<rparr>,
              \<lparr>role = Assistant, content = str ''Sunny''\<rparr>]"
  let ?b = "Some (body_json [message_json ''user'' (str ''weather?''),
                             message_json ''assistant'' (str ''Sunny'')])"
  have v: "validate_body ?b = Inr ?ms" by (simp add: body_eval)
  have k: "str ''k1'' \<noteq> []" "str ''k2'' \<noteq> []" by (simp_all add: str_def)
  have l: "content (lastUserMessage ?ms) = str ''Sunny''" by (simp add: lastUserMessage_def)
  obtain pm where "POST_prepare nfkd_sample (\<lambda>q. Some (str ''{}'')) (Some (str ''k1''))
      (Some (str ''k2'')) ?b =
        Inr \<lparr>search_query = content (lastUserMessage ?ms),
              conversation = add_system_message (systemMessage (str ''{}'')) ?ms,
              payload = pm\<rparr>"
    using POST_prepare_accepts [OF k v, of "\<lambda>q. Some (str ''{}'')" "str ''{}''" nfkd_sample]
    by auto
  then have "map_sum id search_query
     (POST_prepare nfkd_sample (\<lambda>q. Some (str ''{}'')) (Some (str ''k1'')) (Some (str ''k2'')) ?b)
     = Inr (str ''Sunny'')"
    by (simp add: l)
  moreover have "spec_latest_user_content ?ms = Some (str ''weather?'')"
    by (simp add: spec_latest_user_content_def)
  ultimately show ?thesis using v by blast
qed

theorem query_is_last_message_of_any_role_witness:
  "map_sum id search_query
     (POST_prepare nfkd_sample (\<lambda>q. Some (str ''{}'')) (Some (str ''k1'')) (Some (str ''k2''))
        (Some (body_json [message_json ''user'' (str ''weather?''),
                          message_json ''assistant'' (str ''Sunny'')])))
     \<noteq> Inr (str ''weather?'')"
  using query_is_last_message_of_any_role by (simp add: str_def)

text \<open>
  C10. A message whose content is one space passes validation, since the test for a
  non-empty content comes before \<open>trim\<close>; its content is then empty, and it goes into
  the payload for the completion provider with empty content. The body here has a
  second message, \<open>hi\<close>, which is the search query; both keys are set and the search
  returns.
\<close>

theorem whitespace_content_reaches_payload:
  assumes "apiKey \<noteq> []" and "tavilyKey \<noteq> []" and "search (str ''hi'') = Some doc"
  shows "validate_body (Some (body_json [message_json ''user'' (str '' ''),
                                           message_json ''user'' (str ''hi'')]))
           = Inr [\<lparr>role = User, content = []\<rparr>, \<lparr>role = User, content = str ''hi''\<rparr>] \<and>
         (\<exists>p. POST_prepare nfkd search (Some apiKey) (Some tavilyKey)
                 (Some (body_json [message_json ''user'' (str '' ''),
                                   message_json ''user'' (str ''hi'')])) = Inr p \<and>
              search_query p = str ''hi'' \<and>
              payload p ! 1 = \<lparr>role = User, content = []\<rparr> \<and> length (payload p) = 3)"
proof -
  let ?ms = "[\<lparr>role = User, content = []\<rparr>, \<lparr>role = User, content = str ''hi''\<rparr>]"
  let ?b = "Some (body_json [message_json ''user'' (str '' ''),
                             message_json ''user'' (str ''hi'')])"
  have v: "validate_body ?b = Inr ?ms" by (rule validate_whitespace)
  have l: "content (lastUserMessage ?ms) = str ''hi''" by (simp add: lastUserMessage_def)
  have s: "search (content (lastUserMessage ?ms)) = Some doc" using assms(3) l by simp
  have inj: "add_system_message (systemMessage doc) ?ms = systemMessage doc # ?ms"
    by (simp add: add_system_message_def)
  obtain pm where pm: "POST_prepare nfkd search (Some apiKey) (Some tavilyKey) ?b =
        Inr \<lparr>search_query = content (lastUserMessage ?ms),
              conversation = add_system_message (systemMessage doc) ?ms,
              payload = pm\<rparr>"
      "payload_messages nfkd (add_system_message (systemMessage doc) ?ms) = Inr pm"
    using POST_prepare_accepts [of apiKey tavilyKey ?b ?ms search doc nfkd] assms(1,2) v s
    by blast
  obtain y1 where y1: "sanitizeContent nfkd (JStr (content (systemMessage doc))) = Inr y1"
    using sanitizeContent_string by blast
  obtain y3 where y3: "sanitizeContent nfkd (JStr (str ''hi'')) = Inr y3"
    using sanitizeContent_string by blast
  have e: "sanitizeContent nfkd (JStr []) = Inr []" by (simp add: sanitizeContent_falsy)
  have "pm = [\<lparr>role = role (systemMessage doc), content = y1\<rparr>,
              \<lparr>role = User, content = []\<rparr>, \<lparr>role = User, content = y3\<rparr>]"
    using pm(2) by (simp add: inj y1 y3 e)
  then have "payload \<lparr>search_query = content (lastUserMessage ?ms),
              conversation = add_system_message (systemMessage doc) ?ms,
              payload = pm\<rparr> ! 1 = \<lparr>role = User, content = []\<rparr>"
     and "length (payload \<lparr>search_query = content (lastUserMessage ?ms),
              conversation = add_system_message (systemMessage doc) ?ms,
              payload = pm\<rparr>) = 3"
    by simp_all
  with pm(1) l v show ?thesis by auto
qed

theorem whitespace_content_reaches_payload_witness:
  "str ''k1'' \<noteq> [] \<and> str ''k2'' \<noteq> [] \<and>
   (\<lambda>q. Some (str ''{}'')) (str ''hi'') = Some (str ''{}'') \<and>
   (\<exists>p. POST_prepare nfkd_sample (\<lambda>q. Some (str ''{}'')) (Some (str ''k1'')) (Some (str ''k2''))
           (Some (body_json [message_json ''user'' (str '' ''),
                             message_json ''user'' (str ''hi'')])) = Inr p \<and>
        search_query p = str ''hi'' \<and>
        payload p ! 1 = \<lparr>role = User, content = []\<rparr> \<and> length (payload p) = 3)"
  using whitespace_content_reaches_payload
    [of "str ''k1''" "str ''k2''" "\<lambda>q. Some (str ''{}'')" "str ''{}''" nfkd_sample]
  by (simp add: str_def)

end
